theory Spec2Isabelle
  imports Main
begin

section \<open>Documents, the collection and what a route handler produces\<close>

text \<open>
  The server of \<^verbatim>\<open>index.js\<close> keeps no state of its own: every route delegates to the
  collection \<^verbatim>\<open>financeDB.finances\<close>. The collection is modelled as the list of its
  documents in insertion order, and a document as a finite map from field names to values.
  Values are the scalars a JSON body can carry, plus the identifier type of the store.
  Amounts are exact integers: rounding of floating-point sums is not modelled, and neither
  are array or embedded-document values.
\<close>

datatype bson = BNull | BNum int | BStr string | BBool bool | BObjectId string

type_synonym document = "string \<rightharpoonup> bson"

type_synonym collection = "document list"

datatype error = BSONError | TypeError | ConversionFailure | DuplicateKey

record 'k statGroup =
  group_id :: 'k
  totalExpense :: int
  totalIncome :: int

record 'k totalGroup = "'k statGroup" +
  totalTransactions :: int

record rankGroup =
  category_id :: bson
  categoryCount :: int
  totalAmount :: int

text \<open>
  The key of a monthly group is \<^verbatim>\<open>{year, month}\<close>; both are \<^verbatim>\<open>null\<close> for a document
  whose parsed date is \<^verbatim>\<open>null\<close>, which is \<open>None\<close> here.
\<close>

type_synonym monthId = "(nat \<times> nat) option"

datatype response =
    InsertAck bson
  | Documents "document list"
  | Found "document option"
  | DeleteAck nat
  | UpdateAck nat nat
  | FinanceStats int int int "bson statGroup list" "monthId statGroup list"
  | CategoryStats "rankGroup list" "rankGroup list"
  | ErrorBody string

text \<open>
  A handler either sends a response (status code and body) or throws out of its
  \<^verbatim>\<open>async\<close> function without having sent anything: \<open>Unhandled\<close>.
\<close>

datatype outcome = Sent nat response | Unhandled error

section \<open>The identifier constructor\<close>

text \<open>
  \<^verbatim>\<open>new ObjectId(id)\<close> on a string of the request path: the identifier format is 24
  hexadecimal characters, read case-insensitively; anything else throws.
\<close>

definition isHexDigit :: "char \<Rightarrow> bool" where
  "isHexDigit c = (c \<in> set ''0123456789abcdefABCDEF'')"

definition toLowerHex :: "char \<Rightarrow> char" where
  "toLowerHex c =
     (if c = CHR ''A'' then CHR ''a'' else if c = CHR ''B'' then CHR ''b''
      else if c = CHR ''C'' then CHR ''c'' else if c = CHR ''D'' then CHR ''d''
      else if c = CHR ''E'' then CHR ''e'' else if c = CHR ''F'' then CHR ''f'' else c)"

definition isValidHex :: "string \<Rightarrow> bool" where
  "isValidHex s = (length s = 24 \<and> list_all isHexDigit s)"

definition newObjectId :: "string \<Rightarrow> error + bson" where
  "newObjectId s = (if isValidHex s then Inr (BObjectId (map toLowerHex s)) else Inl BSONError)"

text \<open>The hexadecimal string an identifier is serialised to in a response.\<close>

definition isCanonicalHex :: "string \<Rightarrow> bool" where
  "isCanonicalHex s = (length s = 24 \<and> list_all (\<lambda>c. c \<in> set ''0123456789abcdef'') s)"

section \<open>Collection operations\<close>

definition hasId :: "bson \<Rightarrow> document \<Rightarrow> bool" where
  "hasId v d = (d ''_id'' = Some v)"

text \<open>
  \<^verbatim>\<open>insertOne\<close>: a document without \<^verbatim>\<open>_id\<close> gets the identifier the driver generates
  (the argument \<open>gen\<close>); \<^verbatim>\<open>_id\<close> is unique in a collection.
\<close>

definition insertOne :: "bson \<Rightarrow> document \<Rightarrow> collection \<Rightarrow> error + (collection \<times> bson)" where
  "insertOne gen doc c =
     (let i = (case doc ''_id'' of None \<Rightarrow> gen | Some v \<Rightarrow> v)
      in if list_ex (hasId i) c then Inl DuplicateKey
         else Inr (c @ [doc(''_id'' \<mapsto> i)], i))"

definition findOne :: "bson \<Rightarrow> collection \<Rightarrow> document option" where
  "findOne v c = find (hasId v) c"

fun deleteOne :: "bson \<Rightarrow> collection \<Rightarrow> collection \<times> nat" where
  "deleteOne v [] = ([], 0)"
| "deleteOne v (d # ds) =
     (if hasId v d then (ds, 1)
      else (case deleteOne v ds of (ds', n) \<Rightarrow> (d # ds', n)))"

definition mutableFields :: "string list" where
  "mutableFields = [''title'', ''amount'', ''description'', ''date'', ''category'', ''type'']"

text \<open>
  \<^verbatim>\<open>data?.f\<close> is \<^verbatim>\<open>undefined\<close> for a field the body lacks, and the driver writes
  \<^verbatim>\<open>undefined\<close> as \<^verbatim>\<open>null\<close>.
\<close>

definition setValue :: "document \<Rightarrow> string \<Rightarrow> bson" where
  "setValue data f = (case data f of None \<Rightarrow> BNull | Some v \<Rightarrow> v)"

definition applySet :: "document \<Rightarrow> document \<Rightarrow> document" where
  "applySet data d = (\<lambda>f. if f \<in> set mutableFields then Some (setValue data f) else d f)"

definition isModified :: "document \<Rightarrow> document \<Rightarrow> bool" where
  "isModified data d = list_ex (\<lambda>f. d f \<noteq> Some (setValue data f)) mutableFields"

text \<open>\<^verbatim>\<open>updateOne\<close> returns the collection, \<^verbatim>\<open>matchedCount\<close> and \<^verbatim>\<open>modifiedCount\<close>.\<close>

fun updateOne :: "bson \<Rightarrow> document \<Rightarrow> collection \<Rightarrow> collection \<times> nat \<times> nat" where
  "updateOne v data [] = ([], 0, 0)"
| "updateOne v data (d # ds) =
     (if hasId v d then (applySet data d # ds, 1, if isModified data d then 1 else 0)
      else (case updateOne v data ds of (ds', m, n) \<Rightarrow> (d # ds', m, n)))"

section \<open>The record routes\<close>

definition postFinance :: "bson \<Rightarrow> document \<Rightarrow> collection \<Rightarrow> collection \<times> outcome" where
  "postFinance gen finance c =
     (case insertOne gen finance c of
        Inl e \<Rightarrow> (c, Unhandled e)
      | Inr (c', i) \<Rightarrow> (c', Sent 200 (InsertAck i)))"

definition getFinance :: "collection \<Rightarrow> collection \<times> outcome" where
  "getFinance c = (c, Sent 200 (Documents c))"

definition getFinanceById :: "string \<Rightarrow> collection \<Rightarrow> collection \<times> outcome" where
  "getFinanceById ident c =
     (case newObjectId ident of
        Inl e \<Rightarrow> (c, Unhandled e)
      | Inr oid \<Rightarrow> (c, Sent 200 (Found (findOne oid c))))"

definition deleteFinance :: "string \<Rightarrow> collection \<Rightarrow> collection \<times> outcome" where
  "deleteFinance ident c =
     (case newObjectId ident of
        Inl e \<Rightarrow> (c, Unhandled e)
      | Inr oid \<Rightarrow> (case deleteOne oid c of (c', n) \<Rightarrow> (c', Sent 200 (DeleteAck n))))"

definition patchFinance :: "string \<Rightarrow> document \<Rightarrow> collection \<Rightarrow> collection \<times> outcome" where
  "patchFinance financeId data c =
     (case newObjectId financeId of
        Inl e \<Rightarrow> (c, Unhandled e)
      | Inr oid \<Rightarrow> (case updateOne oid data c of (c', m, n) \<Rightarrow> (c', Sent 200 (UpdateAck m n))))"

section \<open>Aggregation stages\<close>

text \<open>\<^verbatim>\<open>{ $eq: ["$type", t] }\<close>\<close>

definition isType :: "string \<Rightarrow> document \<Rightarrow> bool" where
  "isType t d = (d ''type'' = Some (BStr t))"

text \<open>What \<^verbatim>\<open>$sum\<close> adds for an operand: its value when numeric, nothing otherwise.\<close>

definition numeric :: "bson option \<Rightarrow> int" where
  "numeric v = (case v of Some (BNum n) \<Rightarrow> n | _ \<Rightarrow> 0)"

text \<open>\<^verbatim>\<open>{ $cond: [{ $eq: ["$type", t] }, "$amount", 0] }\<close>\<close>

definition condAmount :: "string \<Rightarrow> document \<Rightarrow> int" where
  "condAmount t d = (if isType t d then numeric (d ''amount'') else 0)"

text \<open>\<^verbatim>\<open>_id: "$category"\<close>: a missing field groups under \<^verbatim>\<open>null\<close>.\<close>

definition categoryOf :: "document \<Rightarrow> bson" where
  "categoryOf d = (case d ''category'' of None \<Rightarrow> BNull | Some v \<Rightarrow> v)"

text \<open>
  \<^verbatim>\<open>$group\<close>: one accumulator per distinct key, created at the key's first document and
  stepped by every document of the key. Groups are listed in order of first occurrence.
\<close>

fun accumulate :: "'k \<Rightarrow> ('a \<Rightarrow> 'a) \<Rightarrow> 'a \<Rightarrow> ('k \<times> 'a) list \<Rightarrow> ('k \<times> 'a) list" where
  "accumulate k f init [] = [(k, f init)]"
| "accumulate k f init ((k', a) # gs) =
     (if k = k' then (k', f a) # gs else (k', a) # accumulate k f init gs)"

definition groupStage :: "('d \<Rightarrow> 'k) \<Rightarrow> ('d \<Rightarrow> 'a \<Rightarrow> 'a) \<Rightarrow> 'a \<Rightarrow> 'd list \<Rightarrow> ('k \<times> 'a) list" where
  "groupStage key step init docs =
     foldl (\<lambda>gs d. accumulate (key d) (step d) init gs) [] docs"

text \<open>\<^verbatim>\<open>$sort\<close>: insertion into an ordered list, under the stage's comparison.\<close>

fun sortInsert :: "('a \<Rightarrow> 'a \<Rightarrow> bool) \<Rightarrow> 'a \<Rightarrow> 'a list \<Rightarrow> 'a list" where
  "sortInsert le x [] = [x]"
| "sortInsert le x (y # ys) = (if le x y then x # y # ys else y # sortInsert le x ys)"

definition sortStage :: "('a \<Rightarrow> 'a \<Rightarrow> bool) \<Rightarrow> 'a list \<Rightarrow> 'a list" where
  "sortStage le xs = foldr (sortInsert le) xs []"

subsection \<open>Date parsing\<close>

definition digitVal :: "char \<Rightarrow> nat option" where
  "digitVal c = map_of
     [(CHR ''0'', 0), (CHR ''1'', 1), (CHR ''2'', 2), (CHR ''3'', 3), (CHR ''4'', 4),
      (CHR ''5'', 5), (CHR ''6'', 6), (CHR ''7'', 7), (CHR ''8'', 8), (CHR ''9'', 9)] c"

fun number :: "nat \<Rightarrow> string \<Rightarrow> nat option" where
  "number acc [] = Some acc"
| "number acc (c # cs) =
     (case digitVal c of None \<Rightarrow> None | Some v \<Rightarrow> number (10 * acc + v) cs)"

definition isLeapYear :: "nat \<Rightarrow> bool" where
  "isLeapYear y = (if y mod 100 = 0 then y mod 400 = 0 else y mod 4 = 0)"

definition daysInMonth :: "nat \<Rightarrow> nat \<Rightarrow> nat" where
  "daysInMonth y m =
     (if m = 2 then (if isLeapYear y then 29 else 28)
      else if m = 4 \<or> m = 6 \<or> m = 9 \<or> m = 11 then 30 else 31)"

text \<open>
  The format \<^verbatim>\<open>%Y-%m-%d\<close>: four digits, two digits, two digits, separated by hyphens,
  naming a day of the calendar. The result is (year, month, day).
\<close>

fun parseYmd :: "string \<Rightarrow> (nat \<times> nat \<times> nat) option" where
  "parseYmd [y1, y2, y3, y4, s1, m1, m2, s2, d1, d2] =
     (if s1 = CHR ''-'' \<and> s2 = CHR ''-'' then
        (case (number 0 [y1, y2, y3, y4], number 0 [m1, m2], number 0 [d1, d2]) of
           (Some y, Some m, Some d) \<Rightarrow>
             (if 1 \<le> m \<and> m \<le> 12 \<and> 1 \<le> d \<and> d \<le> daysInMonth y m then Some (y, m, d) else None)
         | _ \<Rightarrow> None)
      else None)"
| "parseYmd _ = None"

text \<open>
  \<^verbatim>\<open>$dateFromString\<close> without \<^verbatim>\<open>onError\<close> and \<^verbatim>\<open>onNull\<close>: a missing or
  \<^verbatim>\<open>null\<close> operand gives \<^verbatim>\<open>null\<close>; a string that does not parse, or a value that is
  not a string, fails the pipeline.
\<close>

definition dateFromString :: "bson option \<Rightarrow> error + (nat \<times> nat \<times> nat) option" where
  "dateFromString v =
     (case v of
        None \<Rightarrow> Inr None
      | Some BNull \<Rightarrow> Inr None
      | Some (BStr s) \<Rightarrow> (case parseYmd s of None \<Rightarrow> Inl ConversionFailure | Some t \<Rightarrow> Inr (Some t))
      | Some _ \<Rightarrow> Inl ConversionFailure)"

text \<open>\<^verbatim>\<open>$addFields: { parsedDate: ... }\<close> over the documents, stopping at the first failure.\<close>

fun addParsedDate :: "document list \<Rightarrow> error + (document \<times> (nat \<times> nat \<times> nat) option) list" where
  "addParsedDate [] = Inr []"
| "addParsedDate (d # ds) =
     (case dateFromString (d ''date'') of
        Inl e \<Rightarrow> Inl e
      | Inr p \<Rightarrow> (case addParsedDate ds of Inl e \<Rightarrow> Inl e | Inr ps \<Rightarrow> Inr ((d, p) # ps)))"

text \<open>\<^verbatim>\<open>{ year: { $year: "$parsedDate" }, month: { $month: "$parsedDate" } }\<close>\<close>

definition yearMonth :: "(nat \<times> nat \<times> nat) option \<Rightarrow> monthId" where
  "yearMonth p = (case p of None \<Rightarrow> None | Some (y, m, d) \<Rightarrow> Some (y, m))"

text \<open>
  \<^verbatim>\<open>$sort: { "_id.year": 1, "_id.month": 1 }\<close>: by year, then by month; \<^verbatim>\<open>null\<close> sorts
  before every number.
\<close>

fun monthLe :: "monthId \<Rightarrow> monthId \<Rightarrow> bool" where
  "monthLe None _ = True"
| "monthLe (Some _) None = False"
| "monthLe (Some (y, m)) (Some (y', m')) = (y < y' \<or> (y = y' \<and> m \<le> m'))"

section \<open>The statistics routes\<close>

definition sumStep :: "document \<Rightarrow> int \<times> int \<Rightarrow> int \<times> int" where
  "sumStep d acc = (fst acc + condAmount ''expense'' d, snd acc + condAmount ''income'' d)"

definition mkGroup :: "'k \<times> int \<times> int \<Rightarrow> 'k statGroup" where
  "mkGroup g = \<lparr>group_id = fst g, totalExpense = fst (snd g), totalIncome = snd (snd g)\<rparr>"

definition totalStep :: "document \<Rightarrow> int \<times> int \<times> int \<Rightarrow> int \<times> int \<times> int" where
  "totalStep d acc =
     (fst acc + condAmount ''expense'' d, fst (snd acc) + condAmount ''income'' d, snd (snd acc) + 1)"

definition mkTotal :: "bson \<times> int \<times> int \<times> int \<Rightarrow> bson totalGroup" where
  "mkTotal g = \<lparr>group_id = fst g, totalExpense = fst (snd g), totalIncome = fst (snd (snd g)),
                totalTransactions = snd (snd (snd g))\<rparr>"

definition totalStats :: "collection \<Rightarrow> bson totalGroup list" where
  "totalStats c = map mkTotal (groupStage (\<lambda>d. BNull) totalStep (0, 0, 0) c)"

definition categoryStats :: "collection \<Rightarrow> bson statGroup list" where
  "categoryStats c = map mkGroup (groupStage categoryOf sumStep (0, 0) c)"

definition monthlyStats :: "collection \<Rightarrow> error + monthId statGroup list" where
  "monthlyStats c =
     (case addParsedDate c of
        Inl e \<Rightarrow> Inl e
      | Inr ps \<Rightarrow>
          Inr (sortStage (\<lambda>a b. monthLe (group_id a) (group_id b))
                 (map mkGroup (groupStage (\<lambda>p. yearMonth (snd p)) (\<lambda>p. sumStep (fst p)) (0, 0) ps))))"

text \<open>
  \<^verbatim>\<open>$facet\<close> returns one document holding the three lists; the pipeline fails as a whole
  when one of its stages fails.
\<close>

type_synonym facets = "bson totalGroup list \<times> bson statGroup list \<times> monthId statGroup list"

definition facetStage :: "collection \<Rightarrow> error + facets" where
  "facetStage c =
     (case monthlyStats c of
        Inl e \<Rightarrow> Inl e
      | Inr ms \<Rightarrow> Inr (totalStats c, categoryStats c, ms))"

text \<open>
  Formatting the response reads element 0 of \<^verbatim>\<open>totalStats\<close>; reading a property of
  \<^verbatim>\<open>undefined\<close> throws.
\<close>

definition formatResponse :: "facets \<Rightarrow> error + response" where
  "formatResponse fs =
     (case fs of (ts, cs, ms) \<Rightarrow>
        (case ts of
           [] \<Rightarrow> Inl TypeError
         | t # _ \<Rightarrow> Inr (FinanceStats (totalExpense t) (totalIncome t) (totalTransactions t) cs ms)))"

text \<open>
  The handler around the result of the \<^verbatim>\<open>aggregate\<close> call: whatever is thrown inside
  \<^verbatim>\<open>try\<close>, by the call or by the formatting, reaches \<^verbatim>\<open>catch\<close>.
\<close>

definition financeStatsHandler :: "error + facets \<Rightarrow> outcome" where
  "financeStatsHandler agg =
     (case (case agg of Inl e \<Rightarrow> Inl e | Inr fs \<Rightarrow> formatResponse fs) of
        Inl e \<Rightarrow> Sent 500 (ErrorBody ''Error fetching finance stats'')
      | Inr r \<Rightarrow> Sent 200 r)"

definition getFinanceStats :: "collection \<Rightarrow> collection \<times> outcome" where
  "getFinanceStats c = (c, financeStatsHandler (facetStage c))"

definition rankStep :: "document \<Rightarrow> int \<times> int \<Rightarrow> int \<times> int" where
  "rankStep d acc = (fst acc + 1, snd acc + numeric (d ''amount''))"

definition mkRank :: "bson \<times> int \<times> int \<Rightarrow> rankGroup" where
  "mkRank g = \<lparr>category_id = fst g, categoryCount = fst (snd g), totalAmount = snd (snd g)\<rparr>"

text \<open>\<^verbatim>\<open>$match\<close> on the type, \<^verbatim>\<open>$group\<close> by category, \<^verbatim>\<open>$sort: { totalAmount: -1 }\<close>.\<close>

definition rankByCategory :: "string \<Rightarrow> collection \<Rightarrow> rankGroup list" where
  "rankByCategory t c =
     sortStage (\<lambda>a b. totalAmount b \<le> totalAmount a)
       (map mkRank (groupStage categoryOf rankStep (0, 0) (filter (isType t) c)))"

definition categoryStatsHandler :: "error + rankGroup list \<Rightarrow> error + rankGroup list \<Rightarrow> outcome" where
  "categoryStatsHandler expenseAgg incomeAgg =
     (case expenseAgg of
        Inl e \<Rightarrow> Sent 500 (ErrorBody ''Error fetching category stats'')
      | Inr expenseStats \<Rightarrow>
          (case incomeAgg of
             Inl e \<Rightarrow> Sent 500 (ErrorBody ''Error fetching category stats'')
           | Inr incomeStats \<Rightarrow> Sent 200 (CategoryStats expenseStats incomeStats)))"

definition getCategoryStats :: "collection \<Rightarrow> collection \<times> outcome" where
  "getCategoryStats c =
     (c, categoryStatsHandler (Inr (rankByCategory ''expense'' c)) (Inr (rankByCategory ''income'' c)))"

section \<open>Notions the properties are stated with\<close>

text \<open>The sum of the numeric amounts of a list of documents.\<close>

definition sumAmounts :: "document list \<Rightarrow> int" where
  "sumAmounts ds = sum_list (map (\<lambda>d. numeric (d ''amount'')) ds)"

text \<open>A document's date is a string that parses under the format.\<close>

definition dateParses :: "document \<Rightarrow> bool" where
  "dateParses d = (case d ''date'' of Some (BStr s) \<Rightarrow> parseYmd s \<noteq> None | _ \<Rightarrow> False)"

text \<open>The year and month a document's parsed date falls in.\<close>

definition monthOf :: "document \<Rightarrow> monthId" where
  "monthOf d = (case d ''date'' of Some (BStr s) \<Rightarrow> yearMonth (parseYmd s) | _ \<Rightarrow> None)"

text \<open>The conversion of a document's date fails, and with it the pipeline.\<close>

definition dateFails :: "document \<Rightarrow> bool" where
  "dateFails d = (case dateFromString (d ''date'') of Inl _ \<Rightarrow> True | Inr _ \<Rightarrow> False)"

text \<open>The value of \<^verbatim>\<open>parsedDate\<close> on a document whose date converts.\<close>

definition parsedDate :: "document \<Rightarrow> (nat \<times> nat \<times> nat) option" where
  "parsedDate d = (case dateFromString (d ''date'') of Inl _ \<Rightarrow> None | Inr p \<Rightarrow> p)"

text \<open>The totals a list of groups holds for a key: zero when the key has no group.\<close>

definition groupTotals :: "'k \<Rightarrow> 'k statGroup list \<Rightarrow> int \<times> int" where
  "groupTotals k gs =
     (case find (\<lambda>g. group_id g = k) gs of
        None \<Rightarrow> (0, 0)
      | Some g \<Rightarrow> (totalExpense g, totalIncome g))"

text \<open>A response with a status code of the 4xx class.\<close>

definition isClientError :: "outcome \<Rightarrow> bool" where
  "isClientError out = (case out of Sent st _ \<Rightarrow> 400 \<le> st \<and> st < 500 | Unhandled _ \<Rightarrow> False)"

subsection \<open>Example documents\<close>

definition groceries :: document where
  "groceries =
     [''_id'' \<mapsto> BObjectId ''65a1b2c3d4e5f60718293a4b'', ''title'' \<mapsto> BStr ''Groceries'',
      ''amount'' \<mapsto> BNum 100, ''description'' \<mapsto> BStr ''weekly shop'',
      ''date'' \<mapsto> BStr ''2024-01-15'', ''category'' \<mapsto> BStr ''food'',
      ''type'' \<mapsto> BStr ''expense'']"

definition salary :: document where
  "salary =
     [''title'' \<mapsto> BStr ''Salary'', ''amount'' \<mapsto> BNum 50, ''description'' \<mapsto> BStr ''January'',
      ''date'' \<mapsto> BStr ''2024-01-20'', ''category'' \<mapsto> BStr ''salary'',
      ''type'' \<mapsto> BStr ''income'']"

definition paid :: document where
  "paid = salary(''_id'' \<mapsto> BObjectId ''65a1b2c3d4e5f60718293a4c'')"

text \<open>A record whose type is neither \<^verbatim>\<open>income\<close> nor \<^verbatim>\<open>expense\<close>.\<close>

definition transfer :: document where
  "transfer =
     [''_id'' \<mapsto> BObjectId ''65a1b2c3d4e5f60718293a4d'', ''title'' \<mapsto> BStr ''To savings'',
      ''amount'' \<mapsto> BNum 999, ''date'' \<mapsto> BStr ''2024-02-01'', ''category'' \<mapsto> BStr ''food'',
      ''type'' \<mapsto> BStr ''transfer'']"

text \<open>A record whose date is not in the format.\<close>

definition misdated :: document where
  "misdated =
     [''_id'' \<mapsto> BObjectId ''65a1b2c3d4e5f60718293a4e'', ''title'' \<mapsto> BStr ''Cinema'',
      ''amount'' \<mapsto> BNum 12, ''date'' \<mapsto> BStr ''15/01/2024'', ''category'' \<mapsto> BStr ''fun'',
      ''type'' \<mapsto> BStr ''expense'']"

text \<open>A record whose date is \<^verbatim>\<open>null\<close>, as an update whose body lacks the date leaves it.\<close>

definition undated :: document where
  "undated = groceries(''date'' \<mapsto> BNull)"

text \<open>A request body for an update that leaves out \<^verbatim>\<open>description\<close>.\<close>

definition edit :: document where
  "edit =
     [''title'' \<mapsto> BStr ''Food'', ''amount'' \<mapsto> BNum 120, ''date'' \<mapsto> BStr ''2024-01-16'',
      ''category'' \<mapsto> BStr ''food'', ''type'' \<mapsto> BStr ''expense'']"

section \<open>Properties of the stages\<close>

lemma keys_accumulate:
  "map fst (accumulate k f i gs) = (if k \<in> set (map fst gs) then map fst gs else map fst gs @ [k])"
  by (induction gs) (force split: if_splits)+

lemma map_of_accumulate:
  "map_of (accumulate k f i gs) =
     (map_of gs)(k \<mapsto> f (case map_of gs k of None \<Rightarrow> i | Some a \<Rightarrow> a))"
  by (induction gs) (auto simp: fun_eq_iff)

lemma groupStage_snoc:
  "groupStage key step init (ds @ [d]) = accumulate (key d) (step d) init (groupStage key step init ds)"
  by (simp add: groupStage_def)

lemma keys_groupStage:
  "distinct (map fst (groupStage key step init ds)) \<and>
   set (map fst (groupStage key step init ds)) = key ` set ds"
proof (induction ds rule: rev_induct)
  case Nil
  show ?case by (simp add: groupStage_def)
next
  case (snoc d ds)
  then show ?case by (auto simp: groupStage_snoc keys_accumulate)
qed

lemma map_of_groupStage:
  "map_of (groupStage key step init ds) k =
     (if k \<in> key ` set ds
      then Some (foldl (\<lambda>a d. step d a) init (filter (\<lambda>d. key d = k) ds))
      else None)"
proof (induction ds rule: rev_induct)
  case Nil
  show ?case by (simp add: groupStage_def)
next
  case (snoc d ds)
  have empty: "key d \<notin> key ` set ds \<Longrightarrow> filter (\<lambda>x. key x = key d) ds = []"
    by (metis (mono_tags, lifting) filter_False imageI)
  from snoc empty show ?case by (auto simp: groupStage_snoc map_of_accumulate)
qed

lemma groupStage_member:
  assumes "(k, a) \<in> set (groupStage key step init ds)"
  shows "k \<in> key ` set ds \<and> a = foldl (\<lambda>a d. step d a) init (filter (\<lambda>d. key d = k) ds)"
proof -
  have "distinct (map fst (groupStage key step init ds))" by (simp add: keys_groupStage)
  with assms have "map_of (groupStage key step init ds) k = Some a" by simp
  then show ?thesis by (simp add: map_of_groupStage split: if_splits)
qed

lemma set_sortInsert: "set (sortInsert le x ys) = insert x (set ys)"
  by (induction ys) auto

lemma sortStage_Nil: "sortStage le [] = []"
  by (simp add: sortStage_def)

lemma sortStage_Cons: "sortStage le (x # xs) = sortInsert le x (sortStage le xs)"
  by (simp add: sortStage_def)

lemma set_sortStage: "set (sortStage le xs) = set xs"
  by (induction xs) (simp_all add: sortStage_Nil sortStage_Cons set_sortInsert)

lemma length_sortInsert: "length (sortInsert le x ys) = Suc (length ys)"
  by (induction ys) auto

lemma distinct_map_sortInsert:
  "distinct (map f (sortInsert le x ys)) = distinct (map f (x # ys))"
  by (induction ys) (auto simp: set_sortInsert)

lemma distinct_map_sortStage: "distinct (map f (sortStage le xs)) = distinct (map f xs)"
  by (induction xs) (simp_all add: sortStage_Nil sortStage_Cons distinct_map_sortInsert set_sortStage)

lemma sorted_sortInsert:
  assumes tot: "\<And>a b. le a b \<or> le b a" and tr: "\<And>a b c. le a b \<Longrightarrow> le b c \<Longrightarrow> le a c"
  shows "sorted_wrt le ys \<Longrightarrow> sorted_wrt le (sortInsert le x ys)"
proof (induction ys)
  case Nil
  show ?case by simp
next
  case (Cons y ys)
  show ?case
  proof (cases "le x y")
    case True
    with Cons.prems tr show ?thesis by auto
  next
    case False
    with tot have "le y x" by blast
    with Cons False show ?thesis by (auto simp: set_sortInsert)
  qed
qed

lemma sorted_sortStage:
  assumes tot: "\<And>a b. le a b \<or> le b a" and tr: "\<And>a b c. le a b \<Longrightarrow> le b c \<Longrightarrow> le a c"
  shows "sorted_wrt le (sortStage le xs)"
proof (induction xs)
  case Nil
  show ?case by (simp add: sortStage_def)
next
  case (Cons x xs)
  have "sortStage le (x # xs) = sortInsert le x (sortStage le xs)" by (simp add: sortStage_def)
  with Cons sorted_sortInsert[of le, OF tot tr] show ?case by simp
qed

lemma monthLe_total: "monthLe a b \<or> monthLe b a"
  by (cases "(a, b)" rule: monthLe.cases) auto

lemma monthLe_trans: "monthLe a b \<Longrightarrow> monthLe b c \<Longrightarrow> monthLe a c"
  by (cases a; cases b; cases c) auto

lemma monthLe_antisym: "monthLe a b \<Longrightarrow> monthLe b a \<Longrightarrow> a = b"
  by (cases a; cases b) auto

lemma find_SomeD: "find P xs = Some x \<Longrightarrow> x \<in> set xs \<and> P x"
  by (induction xs) (auto split: if_splits)

lemma find_unique_key:
  "distinct (map f xs) \<Longrightarrow> g \<in> set xs \<Longrightarrow> f g = k \<Longrightarrow> find (\<lambda>x. f x = k) xs = Some g"
  by (induction xs) (auto simp: image_iff)

lemma groupStage_map:
  "groupStage key step init (map h ds) = groupStage (\<lambda>d. key (h d)) (\<lambda>d. step (h d)) init ds"
  by (simp add: groupStage_def foldl_map)

lemma groupStage_constant_key:
  "ds \<noteq> [] \<Longrightarrow> groupStage (\<lambda>d. k) step init ds = [(k, foldl (\<lambda>a d. step d a) init ds)]"
proof (induction ds rule: rev_induct)
  case Nil
  then show ?case by simp
next
  case (snoc d ds)
  show ?case
  proof (cases "ds = []")
    case True
    then show ?thesis by (simp add: groupStage_def)
  next
    case False
    with snoc.IH show ?thesis by (simp add: groupStage_snoc)
  qed
qed

lemma condAmount_sum:
  "sum_list (map (condAmount t) ds) = sumAmounts (filter (isType t) ds)"
  by (induction ds) (simp_all add: condAmount_def sumAmounts_def)

lemma foldl_sumStep:
  "foldl (\<lambda>a d. sumStep d a) acc ds =
     (fst acc + sumAmounts (filter (isType ''expense'') ds),
      snd acc + sumAmounts (filter (isType ''income'') ds))"
proof (induction ds arbitrary: acc)
  case Nil
  show ?case by (simp add: sumAmounts_def)
next
  case (Cons d ds)
  show ?case
    unfolding foldl_Cons Cons.IH
    by (simp add: sumStep_def condAmount_def sumAmounts_def)
qed

lemma foldl_totalStep:
  "foldl (\<lambda>a d. totalStep d a) acc ds =
     (fst acc + sumAmounts (filter (isType ''expense'') ds),
      fst (snd acc) + sumAmounts (filter (isType ''income'') ds),
      snd (snd acc) + int (length ds))"
proof (induction ds arbitrary: acc)
  case Nil
  show ?case by (simp add: sumAmounts_def)
next
  case (Cons d ds)
  show ?case
    unfolding foldl_Cons Cons.IH
    by (simp add: totalStep_def condAmount_def sumAmounts_def)
qed

lemma foldl_rankStep:
  "foldl (\<lambda>a d. rankStep d a) acc ds = (fst acc + int (length ds), snd acc + sumAmounts ds)"
proof (induction ds arbitrary: acc)
  case Nil
  show ?case by (simp add: sumAmounts_def)
next
  case (Cons d ds)
  show ?case
    unfolding foldl_Cons Cons.IH
    by (simp add: rankStep_def sumAmounts_def)
qed

lemma filter_filter_type:
  "filter (isType t) (filter (\<lambda>d. key d = k) ds) = filter (\<lambda>d. key d = k \<and> isType t d) ds"
  by (induction ds) simp_all

lemma totalStats_nonempty:
  "c \<noteq> [] \<Longrightarrow> totalStats c =
     [\<lparr>group_id = BNull,
       totalExpense = sumAmounts (filter (isType ''expense'') c),
       totalIncome = sumAmounts (filter (isType ''income'') c),
       totalTransactions = int (length c)\<rparr>]"
  by (simp add: totalStats_def groupStage_constant_key foldl_totalStep mkTotal_def)

text \<open>The groups of a key function with the two conditional sums.\<close>

lemma sum_groups_member:
  assumes "g \<in> set (map mkGroup (groupStage key sumStep (0, 0) ds))"
  shows "group_id g \<in> key ` set ds \<and>
         totalExpense g = sumAmounts (filter (\<lambda>d. key d = group_id g \<and> isType ''expense'' d) ds) \<and>
         totalIncome g = sumAmounts (filter (\<lambda>d. key d = group_id g \<and> isType ''income'' d) ds)"
proof -
  from assms obtain k a where ka: "(k, a) \<in> set (groupStage key sumStep (0, 0) ds)" and g: "g = mkGroup (k, a)"
    by auto
  from groupStage_member[OF ka] have k: "k \<in> key ` set ds"
    and a: "a = foldl (\<lambda>a d. sumStep d a) (0, 0) (filter (\<lambda>d. key d = k) ds)" by simp_all
  from g have "group_id g = k" "totalExpense g = fst a" "totalIncome g = snd a"
    by (simp_all add: mkGroup_def)
  with k a show ?thesis by (simp add: foldl_sumStep filter_filter_type)
qed

lemma sum_groups_keys:
  "map group_id (map mkGroup (groupStage key sumStep (0, 0) ds)) = map fst (groupStage key sumStep (0, 0) ds)"
  by (simp add: mkGroup_def comp_def)

lemma groupTotals_sum_groups:
  "groupTotals k (map mkGroup (groupStage key sumStep (0, 0) ds)) =
     (sumAmounts (filter (\<lambda>d. key d = k \<and> isType ''expense'' d) ds),
      sumAmounts (filter (\<lambda>d. key d = k \<and> isType ''income'' d) ds))"
proof (cases "find (\<lambda>g. group_id g = k) (map mkGroup (groupStage key sumStep (0, 0) ds))")
  case None
  then have "k \<notin> set (map group_id (map mkGroup (groupStage key sumStep (0, 0) ds)))"
    by (auto simp: find_None_iff)
  then have "k \<notin> key ` set ds" unfolding sum_groups_keys using keys_groupStage[of key sumStep "(0, 0)" ds] by simp
  then have "filter (\<lambda>d. key d = k \<and> isType ''expense'' d) ds = []"
    and "filter (\<lambda>d. key d = k \<and> isType ''income'' d) ds = []"
    by (auto simp: filter_empty_conv)
  with None show ?thesis by (simp add: groupTotals_def sumAmounts_def)
next
  case (Some g)
  then have "g \<in> set (map mkGroup (groupStage key sumStep (0, 0) ds))" and "group_id g = k"
    using find_SomeD by fastforce+
  with sum_groups_member[of g key ds] Some show ?thesis by (simp add: groupTotals_def)
qed

lemma groupTotals_sortStage:
  assumes "distinct (map group_id gs)"
  shows "groupTotals k (sortStage le gs) = groupTotals k gs"
proof -
  have d: "distinct (map group_id (sortStage le gs))" using assms by (simp add: distinct_map_sortStage)
  show ?thesis
  proof (cases "find (\<lambda>g. group_id g = k) gs")
    case None
    then have "\<forall>g \<in> set gs. group_id g \<noteq> k" by (auto simp: find_None_iff)
    then have "\<forall>g \<in> set (sortStage le gs). group_id g \<noteq> k" by (simp add: set_sortStage)
    then have "find (\<lambda>g. group_id g = k) (sortStage le gs) = None" by (auto simp: find_None_iff)
    with None show ?thesis by (simp add: groupTotals_def)
  next
    case (Some g)
    then have "g \<in> set gs" "group_id g = k" using find_SomeD by fastforce+
    then have "find (\<lambda>g. group_id g = k) (sortStage le gs) = Some g"
      using find_unique_key[OF d, of g k] by (simp add: set_sortStage)
    with Some show ?thesis by (simp add: groupTotals_def)
  qed
qed

section \<open>Properties of the collection operations\<close>

lemma canonical_char:
  "c \<in> set ''0123456789abcdef'' \<Longrightarrow> isHexDigit c \<and> toLowerHex c = c"
  unfolding isHexDigit_def toLowerHex_def
  by (elim disjE | simp)+

lemma canonical_is_valid: "isCanonicalHex h \<Longrightarrow> isValidHex h"
  unfolding isCanonicalHex_def isValidHex_def list_all_iff
  using canonical_char by blast

lemma canonical_lower: "isCanonicalHex h \<Longrightarrow> map toLowerHex h = h"
  unfolding isCanonicalHex_def list_all_iff
  using canonical_char by (intro map_idI) blast

lemma newObjectId_canonical: "isCanonicalHex h \<Longrightarrow> newObjectId h = Inr (BObjectId h)"
  by (simp add: newObjectId_def canonical_is_valid canonical_lower)

lemma findOne_snoc:
  "\<not> list_ex (hasId v) c \<Longrightarrow> hasId v d \<Longrightarrow> findOne v (c @ [d]) = Some d"
  by (induction c) (auto simp: findOne_def)

lemma findOne_None_iff: "findOne v c = None \<longleftrightarrow> \<not> list_ex (hasId v) c"
  by (induction c) (auto simp: findOne_def)

lemma deleteOne_absent: "findOne v c = None \<Longrightarrow> deleteOne v c = (c, 0)"
  by (induction c) (auto simp: findOne_def split: if_splits)

lemma updateOne_present:
  "findOne v c = Some d \<Longrightarrow>
   \<exists>pre post. c = pre @ d # post \<and> findOne v pre = None \<and>
     updateOne v data c = (pre @ applySet data d # post, 1, if isModified data d then 1 else 0)"
proof (induction c)
  case Nil
  then show ?case by (simp add: findOne_def)
next
  case (Cons x c)
  show ?case
  proof (cases "hasId v x")
    case True
    with Cons.prems have "x = d" by (simp add: findOne_def)
    with True have "x # c = [] @ d # c \<and> findOne v [] = None \<and>
      updateOne v data (x # c) = ([] @ applySet data d # c, 1, if isModified data d then 1 else 0)"
      by (simp add: findOne_def)
    then show ?thesis by blast
  next
    case False
    with Cons.prems have "findOne v c = Some d" by (simp add: findOne_def)
    from Cons.IH[OF this] obtain pre post where
      h: "c = pre @ d # post" "findOne v pre = None"
         "updateOne v data c = (pre @ applySet data d # post, 1, if isModified data d then 1 else 0)"
      by blast
    with False have "x # c = (x # pre) @ d # post \<and> findOne v (x # pre) = None \<and>
      updateOne v data (x # c) = ((x # pre) @ applySet data d # post, 1, if isModified data d then 1 else 0)"
      by (simp add: findOne_def)
    then show ?thesis by blast
  qed
qed

lemma findOne_hasId: "findOne v c = Some d \<Longrightarrow> hasId v d"
  by (induction c) (auto simp: findOne_def split: if_splits)

lemma findOne_middle: "findOne v pre = None \<Longrightarrow> hasId v d \<Longrightarrow> findOne v (pre @ d # post) = Some d"
  by (induction pre) (auto simp: findOne_def split: if_splits)

lemma applySet_keeps_id: "hasId v (applySet data d) = hasId v d"
  by (simp add: hasId_def applySet_def mutableFields_def)

section \<open>Properties of the statistics pipelines\<close>

lemma addParsedDate_Inr:
  "\<not> list_ex dateFails c \<Longrightarrow> addParsedDate c = Inr (map (\<lambda>d. (d, parsedDate d)) c)"
  by (induction c) (auto simp: dateFails_def parsedDate_def split: sum.splits)


lemma groupStage_key_cong:
  "(\<And>d. d \<in> set ds \<Longrightarrow> key d = key' d) \<Longrightarrow>
   groupStage key step init ds = groupStage key' step init ds"
  unfolding groupStage_def by (rule foldl_cong) simp_all

lemma yearMonth_parsedDate: "\<not> dateFails d \<Longrightarrow> yearMonth (parsedDate d) = monthOf d"
  by (auto simp: dateFails_def parsedDate_def monthOf_def dateFromString_def yearMonth_def
      split: option.splits bson.splits sum.splits)

lemma dateParses_not_fails: "dateParses d \<Longrightarrow> \<not> dateFails d"
  by (auto simp: dateParses_def dateFails_def dateFromString_def split: option.splits bson.splits)

lemma dateParses_month: "dateParses d \<Longrightarrow> \<exists>y m. monthOf d = Some (y, m)"
  by (auto simp: dateParses_def monthOf_def yearMonth_def split: option.splits bson.splits)


lemma monthlyStats_Inr:
  assumes "\<not> list_ex dateFails c"
  shows "monthlyStats c =
           Inr (sortStage (\<lambda>a b. monthLe (group_id a) (group_id b))
                  (map mkGroup (groupStage monthOf sumStep (0, 0) c)))"
proof -
  have "groupStage (\<lambda>d. yearMonth (parsedDate d)) sumStep (0, 0) c = groupStage monthOf sumStep (0, 0) c"
  proof (rule groupStage_key_cong)
    fix d assume "d \<in> set c"
    with assms have "\<not> dateFails d" by (auto simp: list_ex_iff)
    then show "yearMonth (parsedDate d) = monthOf d" by (rule yearMonth_parsedDate)
  qed
  then show ?thesis
    using assms by (simp add: monthlyStats_def addParsedDate_Inr groupStage_map)
qed


lemma strictly_ascending:
  assumes s: "sorted_wrt (\<lambda>a b. monthLe (f a) (f b)) xs"
    and d: "distinct (map f xs)"
    and k: "\<And>x. x \<in> set xs \<Longrightarrow> \<exists>y m. f x = Some (y, m)"
  shows "sorted_wrt (\<lambda>a b. \<exists>y m y' m'. f a = Some (y, m) \<and> f b = Some (y', m') \<and>
                       (y < y' \<or> (y = y' \<and> m < m'))) xs"
  unfolding sorted_wrt_iff_nth_less
proof (intro allI impI)
  fix i j assume ij: "i < j" "j < length xs"
  then have le: "monthLe (f (xs ! i)) (f (xs ! j))" using s by (simp add: sorted_wrt_iff_nth_less)
  from ij d have ne: "f (xs ! i) \<noteq> f (xs ! j)"
    using nth_eq_iff_index_eq[of "map f xs" i j] by simp
  from ij k[of "xs ! i"] obtain y m where a: "f (xs ! i) = Some (y, m)" by auto
  from ij k[of "xs ! j"] obtain y' m' where b: "f (xs ! j) = Some (y', m')" by auto
  from le ne a b have "y < y' \<or> (y = y' \<and> m < m')" by auto
  with a b show "\<exists>y m y' m'. f (xs ! i) = Some (y, m) \<and> f (xs ! j) = Some (y', m') \<and>
                       (y < y' \<or> (y = y' \<and> m < m'))" by blast
qed

lemma sorted_sortStage_key:
  assumes tot: "\<And>a b. le a b \<or> le b a" and tr: "\<And>a b c. le a b \<Longrightarrow> le b c \<Longrightarrow> le a c"
  shows "sorted_wrt (\<lambda>a b. le (f a) (f b)) (sortStage (\<lambda>a b. le (f a) (f b)) xs)"
proof (rule sorted_sortStage)
  show "\<And>a b. le (f a) (f b) \<or> le (f b) (f a)" by (rule tot)
  show "\<And>a b c. le (f a) (f b) \<Longrightarrow> le (f b) (f c) \<Longrightarrow> le (f a) (f c)" by (rule tr)
qed

lemma sorted_months:
  "sorted_wrt (\<lambda>a b. monthLe (group_id a) (group_id b))
     (sortStage (\<lambda>a b. monthLe (group_id a) (group_id b)) gs)"
  by (rule sorted_sortStage_key[of monthLe, OF monthLe_total monthLe_trans])

lemma getFinanceStats_ok:
  assumes "c \<noteq> []" and "monthlyStats c = Inr ms"
  shows "getFinanceStats c =
     (c, Sent 200 (FinanceStats (sumAmounts (filter (isType ''expense'') c))
                     (sumAmounts (filter (isType ''income'') c)) (int (length c))
                     (categoryStats c) ms))"
  using assms
  by (simp add: getFinanceStats_def financeStatsHandler_def facetStage_def formatResponse_def
      totalStats_nonempty)


lemma rank_groups_member:
  assumes "g \<in> set (map mkRank (groupStage key rankStep (0, 0) ds))"
  shows "category_id g \<in> key ` set ds \<and>
         categoryCount g = int (length (filter (\<lambda>d. key d = category_id g) ds)) \<and>
         totalAmount g = sumAmounts (filter (\<lambda>d. key d = category_id g) ds)"
proof -
  from assms obtain k a where ka: "(k, a) \<in> set (groupStage key rankStep (0, 0) ds)" and g: "g = mkRank (k, a)"
    by auto
  from groupStage_member[OF ka] have k: "k \<in> key ` set ds"
    and a: "a = foldl (\<lambda>a d. rankStep d a) (0, 0) (filter (\<lambda>d. key d = k) ds)" by simp_all
  from g have "category_id g = k" "categoryCount g = fst a" "totalAmount g = snd a"
    by (simp_all add: mkRank_def)
  with k a show ?thesis by (simp add: foldl_rankStep)
qed

lemma rank_groups_keys:
  "map category_id (map mkRank (groupStage key rankStep (0, 0) ds)) = map fst (groupStage key rankStep (0, 0) ds)"
  by (simp add: mkRank_def comp_def)

lemma sorted_ranks:
  "sorted_wrt (\<lambda>a b. totalAmount b \<le> totalAmount a)
     (sortStage (\<lambda>a b. totalAmount b \<le> totalAmount a) gs)"
proof -
  have "sorted_wrt (\<lambda>a b. (\<lambda>x y. (y::int) \<le> x) (totalAmount a) (totalAmount b))
          (sortStage (\<lambda>a b. (\<lambda>x y. (y::int) \<le> x) (totalAmount a) (totalAmount b)) gs)"
    by (rule sorted_sortStage_key) auto
  then show ?thesis by simp
qed

lemma rankByCategory_properties:
  "sorted_wrt (\<lambda>a b. totalAmount b \<le> totalAmount a) (rankByCategory t c) \<and>
   distinct (map category_id (rankByCategory t c)) \<and>
   set (map category_id (rankByCategory t c)) = categoryOf ` {d \<in> set c. isType t d} \<and>
   (\<forall>g \<in> set (rankByCategory t c).
      categoryCount g = int (length (filter (\<lambda>d. isType t d \<and> categoryOf d = category_id g) c)) \<and>
      totalAmount g = sumAmounts (filter (\<lambda>d. isType t d \<and> categoryOf d = category_id g) c))"
proof -
  let ?G = "groupStage categoryOf rankStep (0, 0) (filter (isType t) c)"
  let ?le = "\<lambda>a b. totalAmount b \<le> totalAmount (a::rankGroup)"
  have r: "rankByCategory t c = sortStage ?le (map mkRank ?G)" by (simp add: rankByCategory_def)
  have s: "sorted_wrt ?le (rankByCategory t c)" unfolding r by (rule sorted_ranks)
  have keys: "distinct (map fst ?G)" "set (map fst ?G) = categoryOf ` set (filter (isType t) c)"
    using keys_groupStage[of categoryOf rankStep "(0, 0)" "filter (isType t) c"] by simp_all
  have d: "distinct (map category_id (rankByCategory t c))"
    unfolding r distinct_map_sortStage rank_groups_keys by (rule keys(1))
  have "set (map category_id (rankByCategory t c)) = set (map category_id (map mkRank ?G))"
    unfolding r by (simp only: set_map set_sortStage)
  also have "\<dots> = categoryOf ` set (filter (isType t) c)"
    unfolding rank_groups_keys by (rule keys(2))
  also have "\<dots> = categoryOf ` {d \<in> set c. isType t d}" by simp
  finally have k: "set (map category_id (rankByCategory t c)) = categoryOf ` {d \<in> set c. isType t d}" .
  have m: "\<forall>g \<in> set (rankByCategory t c).
      categoryCount g = int (length (filter (\<lambda>d. isType t d \<and> categoryOf d = category_id g) c)) \<and>
      totalAmount g = sumAmounts (filter (\<lambda>d. isType t d \<and> categoryOf d = category_id g) c)"
  proof
    fix g assume "g \<in> set (rankByCategory t c)"
    then have "g \<in> set (map mkRank ?G)" unfolding r by (simp add: set_sortStage)
    from rank_groups_member[OF this] show
      "categoryCount g = int (length (filter (\<lambda>d. isType t d \<and> categoryOf d = category_id g) c)) \<and>
       totalAmount g = sumAmounts (filter (\<lambda>d. isType t d \<and> categoryOf d = category_id g) c)"
      by (simp add: conj_commute)
  qed
  from s d k m show ?thesis by (intro conjI)
qed

lemma monthly_groups:
  assumes ok: "\<not> list_ex dateFails c"
  defines "ms \<equiv> sortStage (\<lambda>a b. monthLe (group_id a) (group_id b))
                  (map mkGroup (groupStage monthOf sumStep (0, 0) c))"
  shows "monthlyStats c = Inr ms"
    and "sorted_wrt (\<lambda>a b. monthLe (group_id a) (group_id b)) ms"
    and "distinct (map group_id ms)"
    and "set (map group_id ms) = monthOf ` set c"
    and "\<And>g. g \<in> set ms \<Longrightarrow>
           totalExpense g = sumAmounts (filter (\<lambda>d. monthOf d = group_id g \<and> isType ''expense'' d) c) \<and>
           totalIncome g = sumAmounts (filter (\<lambda>d. monthOf d = group_id g \<and> isType ''income'' d) c)"
    and "\<And>k. groupTotals k ms =
           (sumAmounts (filter (\<lambda>d. monthOf d = k \<and> isType ''expense'' d) c),
            sumAmounts (filter (\<lambda>d. monthOf d = k \<and> isType ''income'' d) c))"
proof -
  let ?G = "groupStage monthOf sumStep (0, 0) c"
  have keys: "distinct (map fst ?G)" "set (map fst ?G) = monthOf ` set c"
    using keys_groupStage[of monthOf sumStep "(0, 0)" c] by simp_all
  show "monthlyStats c = Inr ms" unfolding ms_def by (rule monthlyStats_Inr[OF ok])
  show "sorted_wrt (\<lambda>a b. monthLe (group_id a) (group_id b)) ms"
    unfolding ms_def by (rule sorted_months)
  show d: "distinct (map group_id ms)"
    unfolding ms_def distinct_map_sortStage sum_groups_keys by (rule keys(1))
  have "set (map group_id ms) = set (map group_id (map mkGroup ?G))"
    unfolding ms_def by (simp only: set_map set_sortStage)
  then show "set (map group_id ms) = monthOf ` set c"
    unfolding sum_groups_keys keys(2) .
  show "\<And>g. g \<in> set ms \<Longrightarrow>
           totalExpense g = sumAmounts (filter (\<lambda>d. monthOf d = group_id g \<and> isType ''expense'' d) c) \<and>
           totalIncome g = sumAmounts (filter (\<lambda>d. monthOf d = group_id g \<and> isType ''income'' d) c)"
  proof -
    fix g assume "g \<in> set ms"
    then have "g \<in> set (map mkGroup ?G)" unfolding ms_def by (simp only: set_sortStage)
    from sum_groups_member[OF this] show
      "totalExpense g = sumAmounts (filter (\<lambda>d. monthOf d = group_id g \<and> isType ''expense'' d) c) \<and>
       totalIncome g = sumAmounts (filter (\<lambda>d. monthOf d = group_id g \<and> isType ''income'' d) c)"
      by simp
  qed
  have dG: "distinct (map group_id (map mkGroup ?G))" unfolding sum_groups_keys by (rule keys(1))
  show "\<And>k. groupTotals k ms =
           (sumAmounts (filter (\<lambda>d. monthOf d = k \<and> isType ''expense'' d) c),
            sumAmounts (filter (\<lambda>d. monthOf d = k \<and> isType ''income'' d) c))"
    unfolding ms_def groupTotals_sortStage[OF dG] by (rule groupTotals_sum_groups)
qed

section \<open>Evaluation on the example documents\<close>

lemmas eval_defs =
  getFinanceStats_def financeStatsHandler_def facetStage_def formatResponse_def
  monthlyStats_def totalStats_def categoryStats_def groupStage_def sortStage_def
  dateFromString_def digitVal_def daysInMonth_def isLeapYear_def yearMonth_def
  sumStep_def totalStep_def mkGroup_def mkTotal_def condAmount_def isType_def numeric_def
  categoryOf_def getCategoryStats_def categoryStatsHandler_def rankByCategory_def rankStep_def
  mkRank_def

lemmas example_defs = groceries_def salary_def paid_def transfer_def misdated_def undated_def

text \<open>
  The scenario of two records, one expense of 100 and one income of 50, both in January
  2024: the totals, the two categories and the single monthly group.
\<close>

lemma finance_stats_scenario:
  "getFinanceStats [groceries, paid] =
     ([groceries, paid],
      Sent 200 (FinanceStats 100 50 2
        [\<lparr>group_id = BStr ''food'', totalExpense = 100, totalIncome = 0\<rparr>,
         \<lparr>group_id = BStr ''salary'', totalExpense = 0, totalIncome = 50\<rparr>]
        [\<lparr>group_id = Some (2024, 1), totalExpense = 100, totalIncome = 50\<rparr>]))"
  by (simp add: eval_defs example_defs)

text \<open>
  A record whose date is \<^verbatim>\<open>null\<close> does not fail the pipeline: it is grouped under
  the key whose year and month are \<^verbatim>\<open>null\<close>.
\<close>

lemma null_date_is_grouped:
  "monthlyStats [groceries(''date'' \<mapsto> BNull)] =
     Inr [\<lparr>group_id = None, totalExpense = 100, totalIncome = 0\<rparr>]"
  by (simp add: eval_defs example_defs)

section \<open>The claims\<close>

text \<open>
  C1. On the empty record store the statistics route does not answer with the all-zero
  object: the total facet has no group, reading its element 0 throws inside \<^verbatim>\<open>try\<close>, and
  the handler answers with status 500.
\<close>

theorem finance_stats_empty_store:
  "getFinanceStats [] = ([], Sent 500 (ErrorBody ''Error fetching finance stats''))"
  by (simp add: getFinanceStats_def financeStatsHandler_def facetStage_def formatResponse_def
      monthlyStats_def totalStats_def groupStage_def sortStage_def)

text \<open>
  C2. When every record's date is a string that parses under \<^verbatim>\<open>%Y-%m-%d\<close>, the monthly
  facet succeeds; its groups are listed in strictly ascending order of (year, month), there
  is one group for each month in which a record's date falls, and a group's two totals are
  the sums of the amounts of the expense records, and of the income records, of that month.
  On a collection that is not empty the handler answers with status 200 and this list.
\<close>

theorem monthly_stats_sorted_and_summed:
  assumes "list_all dateParses c"
  shows "\<exists>ms. monthlyStats c = Inr ms \<and>
     sorted_wrt (\<lambda>a b. \<exists>y m y' m'. group_id a = Some (y, m) \<and> group_id b = Some (y', m') \<and>
                   (y < y' \<or> (y = y' \<and> m < m'))) ms \<and>
     set (map group_id ms) = monthOf ` set c \<and>
     (\<forall>g \<in> set ms.
        totalExpense g = sumAmounts (filter (\<lambda>d. monthOf d = group_id g \<and> isType ''expense'' d) c) \<and>
        totalIncome g = sumAmounts (filter (\<lambda>d. monthOf d = group_id g \<and> isType ''income'' d) c)) \<and>
     (c \<noteq> [] \<longrightarrow> (\<exists>e i n cs. getFinanceStats c = (c, Sent 200 (FinanceStats e i n cs ms))))"
proof -
  from assms have ok: "\<not> list_ex dateFails c"
    using dateParses_not_fails by (auto simp: list_all_iff list_ex_iff)
  define ms where "ms = sortStage (\<lambda>a b. monthLe (group_id a) (group_id b))
                  (map mkGroup (groupStage monthOf sumStep (0, 0) c))"
  note mg = monthly_groups[OF ok, folded ms_def]
  have some: "\<And>g. g \<in> set ms \<Longrightarrow> \<exists>y m. group_id g = Some (y, m)"
  proof -
    fix g assume "g \<in> set ms"
    then have "group_id g \<in> set (map group_id ms)" by simp
    then have "group_id g \<in> monthOf ` set c" unfolding mg(4) .
    then obtain d where "d \<in> set c" and "group_id g = monthOf d" by auto
    moreover from assms \<open>d \<in> set c\<close> have "dateParses d" by (simp add: list_all_iff)
    ultimately show "\<exists>y m. group_id g = Some (y, m)" using dateParses_month by simp
  qed
  have strict: "sorted_wrt (\<lambda>a b. \<exists>y m y' m'. group_id a = Some (y, m) \<and> group_id b = Some (y', m') \<and>
                   (y < y' \<or> (y = y' \<and> m < m'))) ms"
    by (rule strictly_ascending[OF mg(2) mg(3) some])
  have sums: "\<forall>g \<in> set ms.
        totalExpense g = sumAmounts (filter (\<lambda>d. monthOf d = group_id g \<and> isType ''expense'' d) c) \<and>
        totalIncome g = sumAmounts (filter (\<lambda>d. monthOf d = group_id g \<and> isType ''income'' d) c)"
    using mg(5) by blast
  have resp: "c \<noteq> [] \<longrightarrow> (\<exists>e i n cs. getFinanceStats c = (c, Sent 200 (FinanceStats e i n cs ms)))"
    using getFinanceStats_ok[OF _ mg(1)] by blast
  from mg(1) strict mg(4) sums resp show ?thesis by (intro exI[of _ ms] conjI)
qed

theorem monthly_stats_sorted_and_summed_witness:
  "list_all dateParses [transfer, groceries, paid] \<and>
   monthlyStats [transfer, groceries, paid] =
     Inr [\<lparr>group_id = Some (2024, 1), totalExpense = 100, totalIncome = 50\<rparr>,
          \<lparr>group_id = Some (2024, 2), totalExpense = 0, totalIncome = 0\<rparr>] \<and>
   (\<exists>ms. monthlyStats [transfer, groceries, paid] = Inr ms \<and>
     sorted_wrt (\<lambda>a b. \<exists>y m y' m'. group_id a = Some (y, m) \<and> group_id b = Some (y', m') \<and>
                   (y < y' \<or> (y = y' \<and> m < m'))) ms \<and>
     set (map group_id ms) = monthOf ` set [transfer, groceries, paid] \<and>
     (\<forall>g \<in> set ms.
        totalExpense g = sumAmounts (filter (\<lambda>d. monthOf d = group_id g \<and> isType ''expense'' d)
                                      [transfer, groceries, paid]) \<and>
        totalIncome g = sumAmounts (filter (\<lambda>d. monthOf d = group_id g \<and> isType ''income'' d)
                                     [transfer, groceries, paid])) \<and>
     ([transfer, groceries, paid] \<noteq> [] \<longrightarrow>
        (\<exists>e i n cs. getFinanceStats [transfer, groceries, paid] =
           ([transfer, groceries, paid], Sent 200 (FinanceStats e i n cs ms)))))"
proof -
  have h: "list_all dateParses [transfer, groceries, paid]"
    by (simp add: dateParses_def example_defs digitVal_def daysInMonth_def isLeapYear_def)
  have ev: "monthlyStats [transfer, groceries, paid] =
     Inr [\<lparr>group_id = Some (2024, 1), totalExpense = 100, totalIncome = 50\<rparr>,
          \<lparr>group_id = Some (2024, 2), totalExpense = 0, totalIncome = 0\<rparr>]"
    by (simp add: eval_defs example_defs)
  show ?thesis
    by (intro conjI h ev monthly_stats_sorted_and_summed[OF h])
qed

text \<open>
  C3. A record \<open>r\<close> whose type is neither \<^verbatim>\<open>income\<close> nor \<^verbatim>\<open>expense\<close>, anywhere in
  the collection: the response carries the same two totals as the collection without \<open>r\<close>
  has, the category groups and the monthly groups hold the same totals for every key as
  those of the collection without \<open>r\<close>, and the transaction count is one more. It is
  stated for the collections whose dates the pipeline converts; for the others the
  response carries no totals.
\<close>

theorem other_types_contribute_nothing:
  assumes "\<not> isType ''expense'' r" and "\<not> isType ''income'' r"
    and "\<not> list_ex dateFails (xs @ r # ys)"
  shows "\<exists>e i n cs ms ms'.
     getFinanceStats (xs @ r # ys) = (xs @ r # ys, Sent 200 (FinanceStats e i n cs ms)) \<and>
     e = sumAmounts (filter (isType ''expense'') (xs @ ys)) \<and>
     i = sumAmounts (filter (isType ''income'') (xs @ ys)) \<and>
     n = int (length (xs @ ys)) + 1 \<and>
     (\<forall>k. groupTotals k cs = groupTotals k (categoryStats (xs @ ys))) \<and>
     monthlyStats (xs @ ys) = Inr ms' \<and>
     (\<forall>k. groupTotals k ms = groupTotals k ms')"
proof -
  let ?c = "xs @ r # ys" and ?c' = "xs @ ys"
  from assms(3) have ok': "\<not> list_ex dateFails ?c'" by (auto simp: list_ex_iff)
  define ms where "ms = sortStage (\<lambda>a b. monthLe (group_id a) (group_id b))
                  (map mkGroup (groupStage monthOf sumStep (0, 0) ?c))"
  define ms' where "ms' = sortStage (\<lambda>a b. monthLe (group_id a) (group_id b))
                  (map mkGroup (groupStage monthOf sumStep (0, 0) ?c'))"
  note mg = monthly_groups[OF assms(3), folded ms_def]
  note mg' = monthly_groups[OF ok', folded ms'_def]
  have resp: "getFinanceStats ?c =
     (?c, Sent 200 (FinanceStats (sumAmounts (filter (isType ''expense'') ?c))
                     (sumAmounts (filter (isType ''income'') ?c)) (int (length ?c))
                     (categoryStats ?c) ms))"
    by (rule getFinanceStats_ok[OF _ mg(1)]) simp
  have e: "sumAmounts (filter (isType ''expense'') ?c) = sumAmounts (filter (isType ''expense'') ?c')"
    using assms(1) by simp
  have i: "sumAmounts (filter (isType ''income'') ?c) = sumAmounts (filter (isType ''income'') ?c')"
    using assms(2) by simp
  have n: "int (length ?c) = int (length ?c') + 1" by simp
  have cs: "\<forall>k. groupTotals k (categoryStats ?c) = groupTotals k (categoryStats ?c')"
    unfolding categoryStats_def groupTotals_sum_groups
    using assms(1,2) by simp
  have m: "\<forall>k. groupTotals k ms = groupTotals k ms'"
    unfolding mg(6) mg'(6) using assms(1,2) by simp
  show ?thesis
    unfolding resp
    using e i n cs mg'(1) m
    by (intro exI conjI) (rule refl | assumption)+
qed

theorem other_types_contribute_nothing_witness:
  "\<not> isType ''expense'' transfer \<and> \<not> isType ''income'' transfer \<and>
   \<not> list_ex dateFails ([groceries] @ transfer # [paid]) \<and>
   (\<exists>e i n cs ms ms'.
     getFinanceStats ([groceries] @ transfer # [paid]) =
       ([groceries] @ transfer # [paid], Sent 200 (FinanceStats e i n cs ms)) \<and>
     e = sumAmounts (filter (isType ''expense'') ([groceries] @ [paid])) \<and>
     i = sumAmounts (filter (isType ''income'') ([groceries] @ [paid])) \<and>
     n = int (length ([groceries] @ [paid])) + 1 \<and>
     (\<forall>k. groupTotals k cs = groupTotals k (categoryStats ([groceries] @ [paid]))) \<and>
     monthlyStats ([groceries] @ [paid]) = Inr ms' \<and>
     (\<forall>k. groupTotals k ms = groupTotals k ms'))"
proof -
  have h1: "\<not> isType ''expense'' transfer" by (simp add: isType_def transfer_def)
  have h2: "\<not> isType ''income'' transfer" by (simp add: isType_def transfer_def)
  have h3: "\<not> list_ex dateFails ([groceries] @ transfer # [paid])"
    by (simp add: dateFails_def dateFromString_def example_defs digitVal_def daysInMonth_def
        isLeapYear_def)
  show ?thesis
    by (intro conjI h1 h2 h3 other_types_contribute_nothing[OF h1 h2 h3])
qed

text \<open>
  C4. The category route answers with status 200 and two lists, for the expense and for
  the income records. Each list is in descending order of \<^verbatim>\<open>totalAmount\<close> (equal
  amounts in any order), has one entry for each category of a record of its type, and an
  entry's \<^verbatim>\<open>categoryCount\<close> and \<^verbatim>\<open>totalAmount\<close> are the number and the sum of the
  amounts of the records of that type and category.
\<close>

theorem category_stats_ranked:
  "\<exists>es is. getCategoryStats c = (c, Sent 200 (CategoryStats es is)) \<and>
     (\<forall>(t, rs) \<in> {(''expense'', es), (''income'', is)}.
        sorted_wrt (\<lambda>a b. totalAmount b \<le> totalAmount a) rs \<and>
        distinct (map category_id rs) \<and>
        set (map category_id rs) = categoryOf ` {d \<in> set c. isType t d} \<and>
        (\<forall>g \<in> set rs.
           categoryCount g = int (length (filter (\<lambda>d. isType t d \<and> categoryOf d = category_id g) c)) \<and>
           totalAmount g = sumAmounts (filter (\<lambda>d. isType t d \<and> categoryOf d = category_id g) c)))"
proof (intro exI conjI ballI)
  show "getCategoryStats c =
    (c, Sent 200 (CategoryStats (rankByCategory ''expense'' c) (rankByCategory ''income'' c)))"
    by (simp add: getCategoryStats_def categoryStatsHandler_def)
next
  fix x assume "x \<in> {(''expense'', rankByCategory ''expense'' c), (''income'', rankByCategory ''income'' c)}"
  then have "x = (''expense'', rankByCategory ''expense'' c) \<or> x = (''income'', rankByCategory ''income'' c)"
    by blast
  then show "case x of (t, rs) \<Rightarrow>
        sorted_wrt (\<lambda>a b. totalAmount b \<le> totalAmount a) rs \<and>
        distinct (map category_id rs) \<and>
        set (map category_id rs) = categoryOf ` {d \<in> set c. isType t d} \<and>
        (\<forall>g \<in> set rs.
           categoryCount g = int (length (filter (\<lambda>d. isType t d \<and> categoryOf d = category_id g) c)) \<and>
           totalAmount g = sumAmounts (filter (\<lambda>d. isType t d \<and> categoryOf d = category_id g) c))"
    using rankByCategory_properties[of "''expense''" c] rankByCategory_properties[of "''income''" c]
    by (elim disjE) simp_all
qed

theorem category_stats_ranked_witness:
  "\<exists>es is. getCategoryStats [misdated, groceries, paid] =
              ([misdated, groceries, paid], Sent 200 (CategoryStats es is)) \<and>
     es = [\<lparr>category_id = BStr ''food'', categoryCount = 1, totalAmount = 100\<rparr>,
           \<lparr>category_id = BStr ''fun'', categoryCount = 1, totalAmount = 12\<rparr>] \<and>
     is = [\<lparr>category_id = BStr ''salary'', categoryCount = 1, totalAmount = 50\<rparr>] \<and>
     (\<forall>(t, rs) \<in> {(''expense'', es), (''income'', is)}.
        sorted_wrt (\<lambda>a b. totalAmount b \<le> totalAmount a) rs \<and>
        distinct (map category_id rs) \<and>
        set (map category_id rs) = categoryOf ` {d \<in> set [misdated, groceries, paid]. isType t d} \<and>
        (\<forall>g \<in> set rs.
           categoryCount g = int (length (filter (\<lambda>d. isType t d \<and> categoryOf d = category_id g)
                                           [misdated, groceries, paid])) \<and>
           totalAmount g = sumAmounts (filter (\<lambda>d. isType t d \<and> categoryOf d = category_id g)
                                         [misdated, groceries, paid])))"
proof -
  let ?c = "[misdated, groceries, paid]"
  from category_stats_ranked[of ?c] obtain es "is" where
    r: "getCategoryStats ?c = (?c, Sent 200 (CategoryStats es is))" and
    p: "\<forall>(t, rs) \<in> {(''expense'', es), (''income'', is)}.
        sorted_wrt (\<lambda>a b. totalAmount b \<le> totalAmount a) rs \<and>
        distinct (map category_id rs) \<and>
        set (map category_id rs) = categoryOf ` {d \<in> set ?c. isType t d} \<and>
        (\<forall>g \<in> set rs.
           categoryCount g = int (length (filter (\<lambda>d. isType t d \<and> categoryOf d = category_id g) ?c)) \<and>
           totalAmount g = sumAmounts (filter (\<lambda>d. isType t d \<and> categoryOf d = category_id g) ?c))"
    by (elim exE conjE) (rule that; assumption)
  have ev: "getCategoryStats ?c =
     (?c, Sent 200 (CategoryStats
        [\<lparr>category_id = BStr ''food'', categoryCount = 1, totalAmount = 100\<rparr>,
         \<lparr>category_id = BStr ''fun'', categoryCount = 1, totalAmount = 12\<rparr>]
        [\<lparr>category_id = BStr ''salary'', categoryCount = 1, totalAmount = 50\<rparr>]))"
    by (simp add: eval_defs example_defs)
  from r ev have es: "es = [\<lparr>category_id = BStr ''food'', categoryCount = 1, totalAmount = 100\<rparr>,
         \<lparr>category_id = BStr ''fun'', categoryCount = 1, totalAmount = 12\<rparr>]"
    and "is": "is = [\<lparr>category_id = BStr ''salary'', categoryCount = 1, totalAmount = 50\<rparr>]"
    by simp_all
  from r es "is" p show ?thesis
    by - (rule exI[of _ es], rule exI[of _ "is"], (rule conjI, assumption)+, assumption)
qed

text \<open>
  C5. For a record that exists, the update writes each of the six fields title, amount,
  description, date, category and type from the request body, and writes \<^verbatim>\<open>null\<close> for a
  field the body lacks; every other field of the record, and every other record, is kept.
\<close>

theorem patch_replaces_all_fields:
  assumes "newObjectId ident = Inr oid" and "findOne oid c = Some d"
  shows "\<exists>pre post d' n. c = pre @ d # post \<and>
           patchFinance ident data c = (pre @ d' # post, Sent 200 (UpdateAck 1 n)) \<and>
           findOne oid (pre @ d' # post) = Some d' \<and>
           (\<forall>f \<in> {''title'', ''amount'', ''description'', ''date'', ''category'', ''type''}.
              d' f = Some (case data f of None \<Rightarrow> BNull | Some v \<Rightarrow> v)) \<and>
           (\<forall>f. f \<notin> {''title'', ''amount'', ''description'', ''date'', ''category'', ''type''}
              \<longrightarrow> d' f = d f)"
proof -
  from updateOne_present[OF assms(2), of data] obtain pre post where
    h: "c = pre @ d # post" "findOne oid pre = None"
       "updateOne oid data c = (pre @ applySet data d # post, 1, if isModified data d then 1 else 0)"
    by blast
  let ?d' = "applySet data d"
  have "hasId oid ?d'" using findOne_hasId[OF assms(2)] by (simp add: applySet_keeps_id)
  then have f: "findOne oid (pre @ ?d' # post) = Some ?d'" using h(2) by (simp add: findOne_middle)
  have p: "patchFinance ident data c =
          (pre @ ?d' # post, Sent 200 (UpdateAck 1 (if isModified data d then 1 else 0)))"
    using assms(1) h(3) by (simp add: patchFinance_def)
  have s: "\<forall>f \<in> {''title'', ''amount'', ''description'', ''date'', ''category'', ''type''}.
              ?d' f = Some (case data f of None \<Rightarrow> BNull | Some v \<Rightarrow> v)"
    by (simp add: applySet_def mutableFields_def setValue_def)
  have k: "\<forall>f. f \<notin> {''title'', ''amount'', ''description'', ''date'', ''category'', ''type''}
              \<longrightarrow> ?d' f = d f"
    by (simp add: applySet_def mutableFields_def)
  show ?thesis
    using h(1) p f s k
    by - (rule exI[of _ pre], rule exI[of _ post], rule exI[of _ "applySet data d"],
        rule exI[of _ "if isModified data d then 1 else 0"],
        (rule conjI, assumption)+, assumption)
qed

theorem patch_replaces_all_fields_witness:
  "newObjectId ''65A1B2C3D4E5F60718293A4B'' = Inr (BObjectId ''65a1b2c3d4e5f60718293a4b'') \<and>
   findOne (BObjectId ''65a1b2c3d4e5f60718293a4b'') [groceries] = Some groceries \<and>
   (\<exists>d' n. patchFinance ''65A1B2C3D4E5F60718293A4B'' edit [groceries] = ([d'], Sent 200 (UpdateAck 1 n)) \<and>
      d' ''title'' = Some (BStr ''Food'') \<and> d' ''description'' = Some BNull \<and>
      d' ''_id'' = groceries ''_id'')"
proof -
  have h1: "newObjectId ''65A1B2C3D4E5F60718293A4B'' = Inr (BObjectId ''65a1b2c3d4e5f60718293a4b'')"
    by (simp add: newObjectId_def isValidHex_def isHexDigit_def toLowerHex_def)
  have h2: "findOne (BObjectId ''65a1b2c3d4e5f60718293a4b'') [groceries] = Some groceries"
    by (simp add: findOne_def hasId_def groceries_def)
  from patch_replaces_all_fields[OF h1 h2, of edit] obtain pre post d' n where
    r: "[groceries] = pre @ groceries # post"
       "patchFinance ''65A1B2C3D4E5F60718293A4B'' edit [groceries] = (pre @ d' # post, Sent 200 (UpdateAck 1 n))"
       "\<forall>f \<in> {''title'', ''amount'', ''description'', ''date'', ''category'', ''type''}.
              d' f = Some (case edit f of None \<Rightarrow> BNull | Some v \<Rightarrow> v)"
       "\<forall>f. f \<notin> {''title'', ''amount'', ''description'', ''date'', ''category'', ''type''}
              \<longrightarrow> d' f = groceries f"
    by (elim exE conjE) (rule that; assumption)
  from r(1) have e: "pre = [] \<and> post = []" by (cases pre) simp_all
  from r(3) have "d' ''title'' = Some (BStr ''Food'')" and "d' ''description'' = Some BNull"
    by (simp_all add: edit_def)
  moreover from r(4) have "d' ''_id'' = groceries ''_id''" by simp
  ultimately show ?thesis using h1 h2 r(2) e by simp
qed

text \<open>
  C6, as the code has it. For an id string that is not in the identifier format, the
  handler sends no response: the identifier constructor throws, before the collection is
  read, and nothing in the handler catches it. No client-error response is produced. The
  outcome still differs from that of a well-formed id, which is always a response with
  status 200 whose body is the record found, or \<^verbatim>\<open>null\<close>.
\<close>

theorem get_by_id_malformed:
  "(\<not> isValidHex ident \<longrightarrow> getFinanceById ident c = (c, Unhandled BSONError)) \<and>
   (isValidHex ident \<longrightarrow> (\<exists>r. getFinanceById ident c = (c, Sent 200 (Found r))))"
  by (simp add: getFinanceById_def newObjectId_def)

theorem get_by_id_malformed_witness:
  "\<not> isValidHex ''abc'' \<and>
   getFinanceById ''abc'' [groceries] = ([groceries], Unhandled BSONError) \<and>
   isValidHex ''65a1b2c3d4e5f60718293a4c'' \<and>
   (\<exists>r. getFinanceById ''65a1b2c3d4e5f60718293a4c'' [groceries] = ([groceries], Sent 200 (Found r)))"
proof -
  have h1: "\<not> isValidHex ''abc''" by (simp add: isValidHex_def)
  have h2: "isValidHex ''65a1b2c3d4e5f60718293a4c''" by (simp add: isValidHex_def isHexDigit_def)
  from get_by_id_malformed[of "''abc''" "[groceries]"]
       get_by_id_malformed[of "''65a1b2c3d4e5f60718293a4c''" "[groceries]"] h1 h2
  show ?thesis by blast
qed

text \<open>
  The claim C6 as it is stated fails: for the id \<^verbatim>\<open>abc\<close> the outcome is not a response of
  the 4xx class.
\<close>

theorem get_by_id_malformed_counterexample:
  "\<not> isClientError (snd (getFinanceById ''abc'' []))"
  by (simp add: getFinanceById_def newObjectId_def isValidHex_def isClientError_def)

text \<open>
  C7. A record without an id of its own is created under the identifier the driver
  generates, which no stored record has; reading that identifier (by its hexadecimal
  string) right after returns the created record with the identifier added.
\<close>

theorem create_then_get:
  assumes "finance ''_id'' = None" and "isCanonicalHex h" and "\<not> list_ex (hasId (BObjectId h)) c"
  shows "\<exists>c'. postFinance (BObjectId h) finance c = (c', Sent 200 (InsertAck (BObjectId h))) \<and>
              getFinanceById h c' = (c', Sent 200 (Found (Some (finance(''_id'' \<mapsto> BObjectId h)))))"
proof -
  let ?d = "finance(''_id'' \<mapsto> BObjectId h)"
  have ins: "postFinance (BObjectId h) finance c = (c @ [?d], Sent 200 (InsertAck (BObjectId h)))"
    using assms(1,3) by (simp add: postFinance_def insertOne_def Let_def)
  have "findOne (BObjectId h) (c @ [?d]) = Some ?d"
    using assms(3) by (simp add: findOne_snoc hasId_def)
  then have "getFinanceById h (c @ [?d]) = (c @ [?d], Sent 200 (Found (Some ?d)))"
    using assms(2) by (simp add: getFinanceById_def newObjectId_canonical)
  with ins show ?thesis by blast
qed

theorem create_then_get_witness:
  "salary ''_id'' = None \<and> isCanonicalHex ''65a1b2c3d4e5f60718293a4c'' \<and>
   \<not> list_ex (hasId (BObjectId ''65a1b2c3d4e5f60718293a4c'')) [groceries] \<and>
   (\<exists>c'. postFinance (BObjectId ''65a1b2c3d4e5f60718293a4c'') salary [groceries] =
            (c', Sent 200 (InsertAck (BObjectId ''65a1b2c3d4e5f60718293a4c''))) \<and>
          getFinanceById ''65a1b2c3d4e5f60718293a4c'' c' =
            (c', Sent 200 (Found (Some (salary(''_id'' \<mapsto> BObjectId ''65a1b2c3d4e5f60718293a4c''))))))"
proof -
  have h1: "salary ''_id'' = None" by (simp add: salary_def)
  have h2: "isCanonicalHex ''65a1b2c3d4e5f60718293a4c''" by (simp add: isCanonicalHex_def)
  have h3: "\<not> list_ex (hasId (BObjectId ''65a1b2c3d4e5f60718293a4c'')) [groceries]"
    by (simp add: hasId_def groceries_def)
  show ?thesis
    by (intro conjI h1 h2 h3
        create_then_get[of salary "''65a1b2c3d4e5f60718293a4c''" "[groceries]", OF h1 h2 h3])
qed

text \<open>
  C8. Deleting by a well-formed id that no stored record has answers with status 200 and
  a deleted count of zero, and leaves the collection as it was.
\<close>

theorem delete_absent_id:
  assumes "newObjectId ident = Inr oid" and "findOne oid c = None"
  shows "deleteFinance ident c = (c, Sent 200 (DeleteAck 0))"
  using assms by (simp add: deleteFinance_def deleteOne_absent)

theorem delete_absent_id_witness:
  "newObjectId ''65a1b2c3d4e5f60718293a4c'' = Inr (BObjectId ''65a1b2c3d4e5f60718293a4c'') \<and>
   findOne (BObjectId ''65a1b2c3d4e5f60718293a4c'') [groceries] = None \<and>
   deleteFinance ''65a1b2c3d4e5f60718293a4c'' [groceries] = ([groceries], Sent 200 (DeleteAck 0))"
proof -
  have h1: "newObjectId ''65a1b2c3d4e5f60718293a4c'' = Inr (BObjectId ''65a1b2c3d4e5f60718293a4c'')"
    by (simp add: newObjectId_def isValidHex_def isHexDigit_def toLowerHex_def)
  have h2: "findOne (BObjectId ''65a1b2c3d4e5f60718293a4c'') [groceries] = None"
    by (simp add: findOne_def hasId_def groceries_def)
  from delete_absent_id[OF h1 h2] h1 h2 show ?thesis by blast
qed




text \<open>
  C10. The four reading routes return the collection they were given: listing, reading
  one record, and the two statistics routes write nothing.
\<close>

theorem reads_leave_store_unchanged:
  "fst (getFinance c) = c \<and> fst (getFinanceById ident c) = c \<and>
   fst (getFinanceStats c) = c \<and> fst (getCategoryStats c) = c"
  by (simp add: getFinance_def getFinanceById_def getFinanceStats_def getCategoryStats_def
      split: sum.splits)

end
